theory Spec2Isabelle
  imports Complex_Main
begin

section \<open>Python values and strings\<close>

text \<open>
  The export module \<^verbatim>\<open>utils/excel_export.py\<close> receives a list of result records, each a
  Python dict from field names to values. A value is \<^verbatim>\<open>None\<close>, a \<^verbatim>\<open>str\<close> or an
  \<^verbatim>\<open>int\<close>. A string is a list of characters; a character stands for the code point of
  the same number (0 to 255). A dict is an association list in insertion order, looked up
  with \<open>map_of\<close>.

  Both functions write their result through a spreadsheet library. Of the library, the
  model has what the module's own computations run into: the check of a cell coordinate,
  the cells that \<^verbatim>\<open>ws.columns\<close> yields, and the refusal to save a workbook without a
  sheet. A cell stores the value it is given; the library's checks of a cell's text, the
  sheet title, the file path and failures of the file system are not modelled.
\<close>

datatype pyval = PyNone | PyStr string | PyInt int

type_synonym result = "(string \<times> pyval) list"

datatype error =
    ValueError_coordinate      \<comment> \<open>openpyxl: not a valid coordinate or range\<close>
  | ValueError_int_literal     \<comment> \<open>\<^verbatim>\<open>int()\<close>: invalid literal for int() with base 10\<close>
  | TypeError_int              \<comment> \<open>\<^verbatim>\<open>int(None)\<close>\<close>
  | OverflowError_division     \<comment> \<open>integer division result too large for a float\<close>
  | ZeroDivisionError          \<comment> \<open>division by zero\<close>
  | IndexError_no_sheet        \<comment> \<open>openpyxl on save: at least one sheet must be visible\<close>

text \<open>\<^verbatim>\<open>d.get(key, default)\<close>\<close>

definition dict_get :: "result \<Rightarrow> string \<Rightarrow> pyval \<Rightarrow> pyval" where
  "dict_get d k dflt = (case map_of d k of Some v \<Rightarrow> v | None \<Rightarrow> dflt)"

text \<open>
  Decimal digits of a natural number, most significant first. \<open>digit_char\<close> is only
  applied to numbers below 10.
\<close>

definition digit_char :: "nat \<Rightarrow> char" where
  "digit_char d = ''0123456789'' ! d"

fun digits_of_nat :: "nat \<Rightarrow> string" where
  "digits_of_nat n =
     (if n < 10 then [digit_char n] else digits_of_nat (n div 10) @ [digit_char (n mod 10)])"

declare digits_of_nat.simps [simp del]

text \<open>\<^verbatim>\<open>str(value)\<close>\<close>

fun py_str :: "pyval \<Rightarrow> string" where
  "py_str PyNone = ''None''"
| "py_str (PyStr s) = s"
| "py_str (PyInt n) = (if n < 0 then CHR ''-'' # digits_of_nat (nat (- n)) else digits_of_nat (nat n))"

text \<open>Truth value of an object, as \<^verbatim>\<open>value and ...\<close> tests it.\<close>

fun py_truthy :: "pyval \<Rightarrow> bool" where
  "py_truthy PyNone = False"
| "py_truthy (PyStr s) = (s \<noteq> [])"
| "py_truthy (PyInt n) = (n \<noteq> 0)"

text \<open>
  \<^verbatim>\<open>str.isdigit()\<close>: the string is not empty and every character has the Unicode property
  Numeric\_Type Digit or Decimal. Below code point 256 these are the ten ASCII digits and
  the superscripts two, three and one (178, 179, 185).
\<close>

definition ascii_digit :: "char \<Rightarrow> bool" where
  "ascii_digit c \<longleftrightarrow> (48::nat) \<le> of_char c \<and> of_char c \<le> (57::nat)"

definition isdigit_char :: "char \<Rightarrow> bool" where
  "isdigit_char c \<longleftrightarrow>
     ascii_digit c \<or> of_char c = (178::nat) \<or> of_char c = (179::nat) \<or> of_char c = (185::nat)"

definition py_isdigit :: "string \<Rightarrow> bool" where
  "py_isdigit s \<longleftrightarrow> s \<noteq> [] \<and> list_all isdigit_char s"

text \<open>
  A purely-digit string in the sense of the specification: one or more of the characters
  0 to 9, and the number it denotes.
\<close>

definition digit_string :: "string \<Rightarrow> bool" where
  "digit_string s \<longleftrightarrow> s \<noteq> [] \<and> list_all ascii_digit s"

definition decimal_value :: "string \<Rightarrow> nat" where
  "decimal_value s = foldl (\<lambda>a c. 10 * a + (of_char c - 48)) 0 s"

text \<open>
  \<^verbatim>\<open>int(value)\<close>. Both call sites guard the call with \<^verbatim>\<open>str(value).isdigit()\<close>, so a string
  that reaches it has no sign, blank or underscore; \<^verbatim>\<open>int\<close> then accepts it exactly when all
  its characters are decimal digits, and raises ValueError on a superscript digit. The
  interpreter's limit on the number of digits that \<^verbatim>\<open>int\<close> and \<^verbatim>\<open>str\<close> convert is not
  modelled.
\<close>

fun py_int :: "pyval \<Rightarrow> error + int" where
  "py_int PyNone = Inl TypeError_int"
| "py_int (PyInt n) = Inr n"
| "py_int (PyStr s) =
     (if digit_string s then Inr (int (decimal_value s)) else Inl ValueError_int_literal)"

text \<open>\<^verbatim>\<open>s.startswith(p)\<close> and \<^verbatim>\<open>p in s\<close>\<close>

definition py_startswith :: "string \<Rightarrow> string \<Rightarrow> bool" where
  "py_startswith s p \<longleftrightarrow> take (length p) s = p"

fun py_contains :: "string \<Rightarrow> string \<Rightarrow> bool" where
  "py_contains p [] = (p = [])"
| "py_contains p (c # cs) = (py_startswith (c # cs) p \<or> py_contains p cs)"

section \<open>The detailed report: \<^verbatim>\<open>create_detailed_excel_report\<close>\<close>

text \<open>
  \<^verbatim>\<open>pd.DataFrame(rows)\<close> for a list of dicts: the columns are the keys in the order in which
  they are first seen, and a record without a key has a missing entry (\<open>None\<close>) there.
\<close>

record frame =
  columns :: "string list"
  data :: "pyval option list list"

fun first_seen :: "string list \<Rightarrow> string list \<Rightarrow> string list" where
  "first_seen acc [] = acc"
| "first_seen acc (k # ks) = first_seen (if k \<in> set acc then acc else acc @ [k]) ks"

definition DataFrame :: "result list \<Rightarrow> frame" where
  "DataFrame rows =
     (let cols = first_seen [] (concat (map (map fst) rows))
      in \<lparr>columns = cols, data = map (\<lambda>r. map (map_of r) cols) rows\<rparr>)"

text \<open>\<^verbatim>\<open>df.drop(name, axis=1)\<close>, called only when the column exists.\<close>

definition drop_column :: "string \<Rightarrow> frame \<Rightarrow> frame" where
  "drop_column name df =
     \<lparr>columns = filter (\<lambda>c. c \<noteq> name) (columns df),
      data = map (\<lambda>row. map snd (filter (\<lambda>(c, v). c \<noteq> name) (zip (columns df) row))) (data df)\<rparr>"



definition summary_row :: "result \<Rightarrow> result" where
  "summary_row r =
     map (\<lambda>k. (k, dict_get r k (PyStr '''')))
       [''URL'', ''Company'', ''Overall Score'', ''Consumer Score'', ''Developer Score'',
        ''Investor Score'', ''Trust Score'', ''UX Score'']"

definition score_columns :: "string list" where
  "score_columns =
     [''Overall Score'', ''Consumer Score'', ''Developer Score'', ''Investor Score'',
      ''Clarity Score'', ''Visual Design Score'', ''UX Score'', ''Trust Score'',
      ''Value Prop Score'']"

text \<open>
  \<^verbatim>\<open>int(value) if value and str(value).isdigit() else None\<close>, inside \<^verbatim>\<open>try\<close>: an exception
  of \<^verbatim>\<open>int\<close> gives \<^verbatim>\<open>None\<close> as well.
\<close>

definition score_entry :: "pyval \<Rightarrow> pyval" where
  "score_entry v =
     (if py_truthy v \<and> py_isdigit (py_str v) then
        (case py_int v of Inl e \<Rightarrow> PyNone | Inr n \<Rightarrow> PyInt n)
      else PyNone)"

definition scores_row :: "result \<Rightarrow> result" where
  "scores_row r =
     (''URL'', dict_get r ''URL'' (PyStr '''')) #
     map (\<lambda>col. (col, score_entry (dict_get r col (PyStr '''')))) score_columns"

text \<open>
  The \<^verbatim>\<open>with pd.ExcelWriter(...)\<close> block: the sheets handed to the writer, in order, each by
  \<^verbatim>\<open>to_excel(writer, sheet_name=...)\<close>. Each frame has a definition of its own here; the
  source builds it just before writing it.
\<close>

definition summary_df :: "result list \<Rightarrow> frame" where
  "summary_df results = DataFrame (map summary_row results)"

definition detailed_df :: "result list \<Rightarrow> frame" where
  "detailed_df results =
     (let df = DataFrame results
      in if ''_raw'' \<in> set (columns df) then drop_column ''_raw'' df else df)"

definition scores_df :: "result list \<Rightarrow> frame" where
  "scores_df results = DataFrame (map scores_row results)"

definition sheets_written :: "result list \<Rightarrow> (string \<times> frame) list" where
  "sheets_written results =
     (if map summary_row results \<noteq> [] then [(''Summary'', summary_df results)] else []) @
     (if results \<noteq> [] then [(''Detailed Data'', detailed_df results)] else []) @
     (if map scores_row results \<noteq> [] then [(''Scores Comparison'', scores_df results)] else [])"

text \<open>
  Leaving the \<^verbatim>\<open>with\<close> block saves the workbook. The writer starts from a workbook
  without any sheet (pandas removes the default one), and openpyxl refuses to save a
  workbook that has no visible sheet: it raises IndexError.
\<close>

definition writer_close :: "(string \<times> frame) list \<Rightarrow> error + (string \<times> frame) list" where
  "writer_close sheets = (if sheets = [] then Inl IndexError_no_sheet else Inr sheets)"

definition create_detailed_excel_report :: "result list \<Rightarrow> error + (string \<times> frame) list" where
  "create_detailed_excel_report results = writer_close (sheets_written results)"

section \<open>The styled report: \<^verbatim>\<open>create_excel_report\<close>\<close>

subsection \<open>More of Python's strings and numbers\<close>

text \<open>
  \<^verbatim>\<open>s.split(sep)\<close> for a non-empty separator: the pieces between the occurrences of
  \<open>sep\<close>, found from left to right without overlap.
\<close>

fun split_from :: "string \<Rightarrow> string \<Rightarrow> string \<Rightarrow> string list" where
  "split_from sep piece [] = [piece]"
| "split_from sep piece (c # cs) =
     (if sep \<noteq> [] \<and> py_startswith (c # cs) sep
      then piece # split_from sep [] (drop (length sep - 1) cs)
      else split_from sep (piece @ [c]) cs)"

definition py_split :: "string \<Rightarrow> string \<Rightarrow> string list" where
  "py_split sep s = split_from sep [] s"

text \<open>\<^verbatim>\<open>s.replace(old, new)\<close> for a non-empty \<open>old\<close>: every occurrence, left to right.\<close>

fun py_replace :: "string \<Rightarrow> string \<Rightarrow> string \<Rightarrow> string" where
  "py_replace old new [] = []"
| "py_replace old new (c # cs) =
     (if old \<noteq> [] \<and> py_startswith (c # cs) old
      then new @ py_replace old new (drop (length old - 1) cs)
      else c # py_replace old new cs)"

text \<open>
  \<^verbatim>\<open>a / b\<close> on integers is the binary64 number nearest to the quotient (ties to even),
  given here as the rational it denotes; OverflowError when that is out of range. The
  call site divides a sum of non-negative integers by a positive length.
\<close>

definition round_half_even :: "rat \<Rightarrow> int" where
  "round_half_even x =
     (let f = \<lfloor>x\<rfloor>; d = x - of_int f
      in if d < 1 / 2 then f else if 1 / 2 < d then f + 1 else if even f then f else f + 1)"

definition scale2 :: "rat \<Rightarrow> int \<Rightarrow> rat" where
  "scale2 x k = (if 0 \<le> k then x * 2 ^ nat k else x / 2 ^ nat (- k))"

fun bit_length :: "nat \<Rightarrow> nat" where
  "bit_length n = (if n = 0 then 0 else Suc (bit_length (n div 2)))"

declare bit_length.simps [simp del]

text \<open>For \<open>0 < x\<close>: the \<open>e\<close> with \<open>2 ^ e \<le> x < 2 ^ (e + 1)\<close>.\<close>

definition binary_exponent :: "rat \<Rightarrow> int" where
  "binary_exponent x =
     (let (p, q) = quotient_of x;
          e0 = int (bit_length (nat p)) - int (bit_length (nat q))
      in if scale2 1 e0 \<le> x then e0 else e0 - 1)"

definition nearest_binary64 :: "rat \<Rightarrow> rat" where
  "nearest_binary64 x =
     (if x = 0 then 0
      else let a = \<bar>x\<bar>;
               e = max (binary_exponent a) (- 1022);
               m = round_half_even (scale2 a (52 - e))
           in sgn x * scale2 (of_int m) (e - 52))"

definition py_truediv :: "int \<Rightarrow> int \<Rightarrow> error + rat" where
  "py_truediv a b =
     (if b = 0 then Inl ZeroDivisionError
      else let y = nearest_binary64 (of_int a / of_int b)
           in if 2 ^ 1024 \<le> \<bar>y\<bar> then Inl OverflowError_division else Inr y)"

text \<open>
  The format \<^verbatim>\<open>f"{x:.1f}"\<close>: the decimal with one fractional digit nearest to the exact
  value of the float (ties to even).
\<close>

definition py_format_1f :: "rat \<Rightarrow> string" where
  "py_format_1f x =
     (let t = nat (round_half_even (\<bar>x\<bar> * 10))
      in (if x < 0 then ''-'' else '''') @ digits_of_nat (t div 10) @ ''.'' @ digits_of_nat (t mod 10))"

subsection \<open>The worksheet\<close>

text \<open>
  A cell carries its value and the style attributes this module sets. The worksheet is
  openpyxl's table of cells, keyed by (row, column), as an association list with the
  latest binding first; a cell that was never touched reads as an empty cell.
\<close>

record font =
  font_bold :: bool
  font_color :: "string option"
  font_size :: "nat option"
  font_underline :: "string option"

record pattern_fill =
  start_color :: string
  end_color :: string
  fill_type :: string

record alignment =
  horizontal :: string
  vertical :: string

record cell =
  cell_value :: pyval
  cell_font :: font
  cell_fill :: "pattern_fill option"
  cell_alignment :: "alignment option"
  cell_border :: "string option"
  cell_hyperlink :: "pyval option"

type_synonym worksheet = "((nat \<times> nat) \<times> cell) list"

definition Font :: "bool \<Rightarrow> string option \<Rightarrow> nat option \<Rightarrow> string option \<Rightarrow> font" where
  "Font b c s u = \<lparr>font_bold = b, font_color = c, font_size = s, font_underline = u\<rparr>"

definition solid_fill :: "string \<Rightarrow> pattern_fill" where
  "solid_fill c = \<lparr>start_color = c, end_color = c, fill_type = ''solid''\<rparr>"

definition default_font :: font where
  "default_font = Font False None (Some 11) None"

definition header_font :: font where
  "header_font = Font True (Some ''FFFFFF'') (Some 12) None"

definition header_fill :: pattern_fill where
  "header_fill = solid_fill ''366092''"

definition subheader_font :: font where
  "subheader_font = Font True None (Some 11) None"

definition subheader_fill :: pattern_fill where
  "subheader_fill = solid_fill ''D9E2F3''"

definition score_font :: font where
  "score_font = Font True None None None"

definition link_font :: font where
  "link_font = Font False (Some ''0000FF'') None (Some ''single'')"

definition light_green :: pattern_fill where
  "light_green = solid_fill ''C6EFCE''"

definition light_yellow :: pattern_fill where
  "light_yellow = solid_fill ''FFEB9C''"

definition light_red :: pattern_fill where
  "light_red = solid_fill ''FFC7CE''"

definition thin_border :: string where
  "thin_border = ''thin''"

definition center_alignment :: alignment where
  "center_alignment = \<lparr>horizontal = ''center'', vertical = ''center''\<rparr>"

definition left_alignment :: alignment where
  "left_alignment = \<lparr>horizontal = ''left'', vertical = ''center''\<rparr>"

definition empty_cell :: cell where
  "empty_cell = \<lparr>cell_value = PyNone, cell_font = default_font, cell_fill = None,
                 cell_alignment = None, cell_border = None, cell_hyperlink = None\<rparr>"

definition get_cell :: "worksheet \<Rightarrow> nat \<times> nat \<Rightarrow> cell" where
  "get_cell ws k = (case map_of ws k of Some c \<Rightarrow> c | None \<Rightarrow> empty_cell)"

definition modify_cell :: "nat \<times> nat \<Rightarrow> (cell \<Rightarrow> cell) \<Rightarrow> worksheet \<Rightarrow> worksheet" where
  "modify_cell k f ws = (k, f (get_cell ws k)) # ws"

text \<open>
  \<^verbatim>\<open>chr(ord('A') + col_idx - 1)\<close>, as a code point, and the worksheet's reading of the
  coordinate \<^verbatim>\<open>f'{col_letter}{row}'\<close>: openpyxl accepts a column of ASCII letters (either
  case) and raises ValueError for any other character. The rows of this module start at 5.
\<close>

definition col_letter :: "nat \<Rightarrow> nat" where
  "col_letter col_idx = 65 + col_idx - 1"

definition coordinate :: "nat \<Rightarrow> nat \<Rightarrow> error + (nat \<times> nat)" where
  "coordinate letter row =
     (if 65 \<le> letter \<and> letter \<le> 90 then Inr (row, letter - 64)
      else if 97 \<le> letter \<and> letter \<le> 122 then Inr (row, letter - 96)
      else Inl ValueError_coordinate)"

subsection \<open>Title, header and data rows\<close>

definition title_block :: "string \<Rightarrow> nat \<Rightarrow> worksheet" where
  "title_block now n =
     modify_cell (3, 1) (\<lambda>c. c\<lparr>cell_value := PyStr (''Total sites analyzed: '' @ digits_of_nat n)\<rparr>)
       (modify_cell (2, 1) (\<lambda>c. c\<lparr>cell_value := PyStr (''Generated on: '' @ now)\<rparr>)
         (modify_cell (1, 1) (\<lambda>c. c\<lparr>cell_font := Font True None (Some 16) None\<rparr>)
           (modify_cell (1, 1) (\<lambda>c. c\<lparr>cell_value := PyStr ''RateMySite Analysis Report''\<rparr>) [])))"

text \<open>
  The label of a record's header cell. \<^verbatim>\<open>url.startswith\<close> raises on a value that is not
  a string and an index out of range raises IndexError; the bare \<^verbatim>\<open>except\<close> turns both
  into the raw value.
\<close>

definition header_label :: "pyval \<Rightarrow> pyval" where
  "header_label url =
     (case url of
        PyStr u \<Rightarrow>
          if py_startswith u ''http://'' \<or> py_startswith u ''https://'' then
            (case py_split ''//'' u of
               a # b # rest \<Rightarrow>
                 (case py_split ''/'' b of
                    domain # rest' \<Rightarrow> PyStr (py_replace ''www.'' '''' domain)
                  | [] \<Rightarrow> url)
             | _ \<Rightarrow> url)
          else url
      | _ \<Rightarrow> url)"

definition header_cell :: "result \<Rightarrow> cell \<Rightarrow> cell" where
  "header_cell result c =
     c\<lparr>cell_value := header_label (dict_get result ''URL'' (PyStr ''Unknown'')),
       cell_font := header_font, cell_fill := Some header_fill,
       cell_alignment := Some center_alignment, cell_border := Some thin_border\<rparr>"

fun header_cells :: "nat \<Rightarrow> nat \<Rightarrow> result list \<Rightarrow> worksheet \<Rightarrow> error + worksheet" where
  "header_cells current_row col_idx [] ws = Inr ws"
| "header_cells current_row col_idx (result # rest) ws =
     (case coordinate (col_letter col_idx) current_row of
        Inl e \<Rightarrow> Inl e
      | Inr k \<Rightarrow> header_cells current_row (col_idx + 1) rest (modify_cell k (header_cell result) ws))"

text \<open>\<^verbatim>\<open>value = result.get(row_key, '-')\<close>, with \<^verbatim>\<open>None\<close> replaced by the placeholder.\<close>

definition row_value :: "result \<Rightarrow> string \<Rightarrow> pyval" where
  "row_value result row_key =
     (let v = dict_get result row_key (PyStr ''-'') in if v = PyNone then PyStr ''-'' else v)"

text \<open>The body of the inner loop on one cell: value, border, alignment, then the styles.\<close>

definition data_cell :: "string \<Rightarrow> pyval \<Rightarrow> cell \<Rightarrow> error + cell" where
  "data_cell row_key v c =
     (let c1 = c\<lparr>cell_value := PyStr (py_str v), cell_border := Some thin_border,
                 cell_alignment := Some center_alignment\<rparr>
      in if py_contains ''Score'' row_key \<and> v \<noteq> PyStr ''-'' \<and> py_isdigit (py_str v) then
           (case py_int v of
              Inl e \<Rightarrow> Inl e
            | Inr score \<Rightarrow>
                Inr (if score \<ge> 80 then c1\<lparr>cell_font := score_font, cell_fill := Some light_green\<rparr>
                     else if score \<ge> 60 then c1\<lparr>cell_font := score_font, cell_fill := Some light_yellow\<rparr>
                     else if score < 60 then c1\<lparr>cell_font := score_font, cell_fill := Some light_red\<rparr>
                     else c1\<lparr>cell_font := score_font\<rparr>))
         else if row_key = ''URL'' \<and> v \<noteq> PyStr ''-'' then
           Inr (c1\<lparr>cell_hyperlink := Some v, cell_font := link_font\<rparr>)
         else Inr c1)"

fun data_cells :: "string \<Rightarrow> nat \<Rightarrow> nat \<Rightarrow> result list \<Rightarrow> worksheet \<Rightarrow> error + worksheet" where
  "data_cells row_key current_row col_idx [] ws = Inr ws"
| "data_cells row_key current_row col_idx (result # rest) ws =
     (case coordinate (col_letter col_idx) current_row of
        Inl e \<Rightarrow> Inl e
      | Inr k \<Rightarrow>
          (case data_cell row_key (row_value result row_key) (get_cell ws k) of
             Inl e \<Rightarrow> Inl e
           | Inr c \<Rightarrow> data_cells row_key current_row (col_idx + 1) rest ((k, c) # ws)))"

definition category_cell :: "string \<Rightarrow> cell \<Rightarrow> cell" where
  "category_cell row_display c =
     c\<lparr>cell_value := PyStr row_display, cell_font := subheader_font,
       cell_fill := Some subheader_fill, cell_alignment := Some left_alignment,
       cell_border := Some thin_border\<rparr>"

fun data_rows ::
  "(string \<times> string) list \<Rightarrow> result list \<Rightarrow> nat \<Rightarrow> worksheet \<Rightarrow> error + (worksheet \<times> nat)" where
  "data_rows [] results current_row ws = Inr (ws, current_row)"
| "data_rows ((row_key, row_display) # rows) results current_row ws =
     (case data_cells row_key current_row 2 results
             (modify_cell (current_row, 1) (category_cell row_display) ws) of
        Inl e \<Rightarrow> Inl e
      | Inr ws' \<Rightarrow> data_rows rows results (current_row + 1) ws')"

subsection \<open>Summary statistics\<close>

definition score_fields :: "(string \<times> string) list \<Rightarrow> string list" where
  "score_fields table_rows = map fst (filter (\<lambda>(key, d). py_contains ''Score'' key) table_rows)"

fun collect_scores :: "string \<Rightarrow> result list \<Rightarrow> error + int list" where
  "collect_scores score_field [] = Inr []"
| "collect_scores score_field (result # rest) =
     (let v = dict_get result score_field (PyStr ''-'')
      in if v \<noteq> PyStr ''-'' \<and> py_isdigit (py_str v) then
           (case py_int v of
              Inl e \<Rightarrow> Inl e
            | Inr n \<Rightarrow>
                (case collect_scores score_field rest of
                   Inl e \<Rightarrow> Inl e
                 | Inr ns \<Rightarrow> Inr (n # ns)))
         else collect_scores score_field rest)"

fun summary_lines ::
  "result list \<Rightarrow> string list \<Rightarrow> nat \<Rightarrow> worksheet \<Rightarrow> error + (worksheet \<times> nat)" where
  "summary_lines results [] current_row ws = Inr (ws, current_row)"
| "summary_lines results (score_field # others) current_row ws =
     (case collect_scores score_field results of
        Inl e \<Rightarrow> Inl e
      | Inr scores \<Rightarrow>
          if scores \<noteq> [] then
            (case py_truediv (sum_list scores) (int (length scores)) of
               Inl e \<Rightarrow> Inl e
             | Inr avg_score \<Rightarrow>
                 summary_lines results others (current_row + 1)
                   (modify_cell (current_row, 2) (\<lambda>c. c\<lparr>cell_value := PyStr (py_format_1f avg_score)\<rparr>)
                     (modify_cell (current_row, 1)
                        (\<lambda>c. c\<lparr>cell_value := PyStr (''Average '' @ score_field @ '':'')\<rparr>) ws)))
          else summary_lines results others current_row ws)"

subsection \<open>Column widths\<close>

text \<open>
  \<^verbatim>\<open>ws.columns\<close> yields, for each column from 1 to the largest column in use, its cells
  in the rows from 1 to the largest row in use; a cell that was never written reads as
  \<^verbatim>\<open>None\<close>. Widths are kept per column, here under the column's number.
\<close>

definition max_row :: "worksheet \<Rightarrow> nat" where
  "max_row ws = fold (\<lambda>((r, c), x) m. max r m) ws 0"

definition max_column :: "worksheet \<Rightarrow> nat" where
  "max_column ws = fold (\<lambda>((r, c), x) m. max c m) ws 0"

definition column_max_length :: "worksheet \<Rightarrow> nat \<Rightarrow> nat" where
  "column_max_length ws col =
     fold (\<lambda>row max_length.
             if length (py_str (cell_value (get_cell ws (row, col)))) > max_length
             then length (py_str (cell_value (get_cell ws (row, col)))) else max_length)
       [1..<Suc (max_row ws)] 0"

definition adjusted_width :: "worksheet \<Rightarrow> nat \<Rightarrow> nat" where
  "adjusted_width ws col = min (max (column_max_length ws col + 2) 10) 50"

definition auto_adjust :: "worksheet \<Rightarrow> (nat \<times> nat) list" where
  "auto_adjust ws = map (\<lambda>col. (col, adjusted_width ws col)) [1..<Suc (max_column ws)]"

subsection \<open>The report\<close>

text \<open>
  What \<^verbatim>\<open>wb.save(filepath)\<close> writes: the sheet and the column widths. The time stamp of
  row 2 is a parameter.
\<close>

record report =
  sheet :: worksheet
  column_widths :: "(nat \<times> nat) list"

definition category_header :: "cell \<Rightarrow> cell" where
  "category_header c =
     c\<lparr>cell_value := PyStr ''Category'', cell_font := header_font,
       cell_fill := Some header_fill, cell_alignment := Some center_alignment,
       cell_border := Some thin_border\<rparr>"

definition summary_title :: "nat \<Rightarrow> worksheet \<Rightarrow> worksheet" where
  "summary_title current_row ws =
     modify_cell (current_row, 1) (\<lambda>c. c\<lparr>cell_font := Font True None (Some 14) None\<rparr>)
       (modify_cell (current_row, 1) (\<lambda>c. c\<lparr>cell_value := PyStr ''Summary Statistics''\<rparr>) ws)"

definition create_excel_report ::
  "string \<Rightarrow> result list \<Rightarrow> (string \<times> string) list \<Rightarrow> error + report" where
  "create_excel_report now results table_rows =
     (let ws0 = title_block now (length results) in
      if results = [] then
        Inr \<lparr>sheet = modify_cell (5, 1) (\<lambda>c. c\<lparr>cell_value := PyStr ''No results to display''\<rparr>) ws0,
             column_widths = []\<rparr>
      else
        (case header_cells 5 2 results (modify_cell (5, 1) category_header ws0) of
           Inl e \<Rightarrow> Inl e
         | Inr ws2 \<Rightarrow>
             (case data_rows table_rows results 6 ws2 of
                Inl e \<Rightarrow> Inl e
              | Inr (ws3, current_row) \<Rightarrow>
                  (case summary_lines results (score_fields table_rows) (current_row + 3)
                          (summary_title (current_row + 2) ws3) of
                     Inl e \<Rightarrow> Inl e
                   | Inr (ws5, last_row) \<Rightarrow>
                       Inr \<lparr>sheet = ws5, column_widths = auto_adjust ws5\<rparr>))))"

section \<open>Notions of the specification\<close>


text \<open>
  The valid entries of a score field: the numbers of the records that hold a purely-digit
  value for it, in record order. Records without the field or with any other value
  contribute nothing.
\<close>

definition valid_scores :: "string \<Rightarrow> result list \<Rightarrow> int list" where
  "valid_scores field results =
     List.map_filter
       (\<lambda>r. case map_of r field of
              None \<Rightarrow> None
            | Some v \<Rightarrow> if digit_string (py_str v) then Some (int (decimal_value (py_str v))) else None)
       results"




text \<open>
  The header label as the specification words it: the scheme is stripped, the host is
  what stands before the first slash, and a leading \<^verbatim>\<open>www.\<close> is removed from it; a
  string without scheme is the label itself.
\<close>

definition strip_prefix :: "string \<Rightarrow> string \<Rightarrow> string" where
  "strip_prefix p s = (if py_startswith s p then drop (length p) s else s)"

definition spec_label :: "string \<Rightarrow> string" where
  "spec_label url =
     (if py_startswith url ''http://'' then
        strip_prefix ''www.'' (takeWhile (\<lambda>c. c \<noteq> CHR ''/'') (drop 7 url))
      else if py_startswith url ''https://'' then
        strip_prefix ''www.'' (takeWhile (\<lambda>c. c \<noteq> CHR ''/'') (drop 8 url))
      else url)"

section \<open>Facts about strings\<close>

lemma digit_string_isdigit: "digit_string s \<Longrightarrow> py_isdigit s"
  by (induction s) (auto simp: digit_string_def py_isdigit_def isdigit_char_def list_all_iff)


lemma digit_char_cases:
  assumes "d < (10::nat)"
  shows "d = 0 \<or> d = 1 \<or> d = 2 \<or> d = 3 \<or> d = 4 \<or> d = 5 \<or> d = 6 \<or> d = 7 \<or> d = 8 \<or> d = 9"
  using assms by arith

lemma of_char_digit_char: "d < 10 \<Longrightarrow> of_char (digit_char d) = 48 + d"
  using digit_char_cases [of d] by (auto simp: digit_char_def)

lemma ascii_digit_digit_char: "d < 10 \<Longrightarrow> ascii_digit (digit_char d)"
  by (simp add: ascii_digit_def of_char_digit_char)

lemma digit_string_append:
  "digit_string xs \<Longrightarrow> ascii_digit c \<Longrightarrow> digit_string (xs @ [c])"
  by (simp add: digit_string_def)

lemma digit_string_digits_of_nat: "digit_string (digits_of_nat n)"
proof (induction n rule: digits_of_nat.induct)
  case (1 n)
  show ?case
  proof (cases "n < 10")
    case True
    then show ?thesis
      by (simp add: digits_of_nat.simps [of n] digit_string_def ascii_digit_digit_char)
  next
    case False
    then have "digit_string (digits_of_nat (n div 10))"
      using "1.IH" by simp
    then show ?thesis
      using False by (simp add: digits_of_nat.simps [of n] digit_string_append ascii_digit_digit_char)
  qed
qed

lemma decimal_value_append:
  "decimal_value (xs @ [c]) = 10 * decimal_value xs + (of_char c - 48)"
  by (simp add: decimal_value_def)

lemma decimal_value_digits_of_nat: "decimal_value (digits_of_nat n) = n"
proof (induction n rule: digits_of_nat.induct)
  case (1 n)
  show ?case
  proof (cases "n < 10")
    case True
    then show ?thesis
      by (simp add: digits_of_nat.simps [of n] decimal_value_def of_char_digit_char)
  next
    case False
    then have "decimal_value (digits_of_nat (n div 10)) = n div 10"
      using "1.IH" by simp
    then show ?thesis
      using False
      by (simp add: digits_of_nat.simps [of n] decimal_value_append of_char_digit_char)
  qed
qed

lemma digit_string_py_str_PyInt: "digit_string (py_str (PyInt n)) \<longleftrightarrow> 0 \<le> n"
  by (auto simp: digit_string_digits_of_nat) (simp add: digit_string_def ascii_digit_def)

lemma py_isdigit_py_str_PyInt: "py_isdigit (py_str (PyInt n)) \<longleftrightarrow> 0 \<le> n"
  by (auto simp: digit_string_digits_of_nat digit_string_isdigit)
     (simp add: py_isdigit_def isdigit_char_def ascii_digit_def)

lemma not_digit_string_None: "\<not> digit_string (py_str PyNone)" "\<not> py_isdigit (py_str PyNone)"
  by (simp_all add: digit_string_def py_isdigit_def isdigit_char_def ascii_digit_def)

lemma not_digit_string_dash: "\<not> digit_string ''-''" "\<not> py_isdigit ''-''"
  by (simp_all add: digit_string_def py_isdigit_def isdigit_char_def ascii_digit_def)

lemma py_int_digit_string:
  assumes "digit_string (py_str v)"
  shows "py_int v = Inr (int (decimal_value (py_str v)))"
proof (cases v)
  case PyNone
  then show ?thesis using assms not_digit_string_None(1) by simp
next
  case (PyStr s)
  then show ?thesis using assms by simp
next
  case (PyInt n)
  then have "0 \<le> n"
    using assms digit_string_py_str_PyInt [of n] by blast
  then show ?thesis
    using PyInt by (simp add: decimal_value_digits_of_nat)
qed

lemma py_int_isdigit_ok:
  assumes "py_isdigit (py_str v)" and "py_int v = Inr n"
  shows "digit_string (py_str v)"
proof (cases v)
  case PyNone
  then show ?thesis using assms by simp
next
  case (PyStr s)
  then show ?thesis using assms by (simp split: if_splits)
next
  case (PyInt m)
  then show ?thesis
    using assms(1) py_isdigit_py_str_PyInt [of m] digit_string_py_str_PyInt [of m] by blast
qed

section \<open>Facts about frames\<close>











section \<open>Facts about the worksheet\<close>

lemma map_of_modify_cell:
  "map_of (modify_cell k f ws) k' = (if k' = k then Some (f (get_cell ws k)) else map_of ws k')"
  by (simp add: modify_cell_def)

lemma get_cell_modify_cell:
  "get_cell (modify_cell k f ws) k' = (if k' = k then f (get_cell ws k) else get_cell ws k')"
  by (simp add: get_cell_def map_of_modify_cell)

lemma get_cell_Cons: "get_cell ((k, c) # ws) k' = (if k' = k then c else get_cell ws k')"
  by (simp add: get_cell_def)

lemma get_cell_cong: "map_of ws k = map_of ws' k \<Longrightarrow> get_cell ws k = get_cell ws' k"
  by (simp add: get_cell_def)

lemma get_cell_unwritten: "map_of ws k = None \<Longrightarrow> get_cell ws k = empty_cell"
  by (simp add: get_cell_def)

lemma coordinate_letter: "1 \<le> c \<Longrightarrow> c \<le> 26 \<Longrightarrow> coordinate (col_letter c) row = Inr (row, c)"
  by (auto simp: coordinate_def col_letter_def)

lemma coordinate_past_Z: "coordinate (col_letter 27) row = Inl ValueError_coordinate"
  by (simp add: coordinate_def col_letter_def)

subsection \<open>The header loop\<close>

lemma header_cells_fails:
  "1 \<le> c \<Longrightarrow> c \<le> 27 \<Longrightarrow> 27 < c + length rs \<Longrightarrow>
     header_cells row c rs ws = Inl ValueError_coordinate"
proof (induction rs arbitrary: c ws)
  case Nil
  then show ?case by simp
next
  case (Cons r rs)
  show ?case
  proof (cases "c = 27")
    case True
    then show ?thesis by (simp add: coordinate_past_Z)
  next
    case False
    then have "c \<le> 26" using Cons.prems by simp
    then have "coordinate (col_letter c) row = Inr (row, c)"
      using Cons.prems by (simp add: coordinate_letter)
    moreover have "header_cells row (c + 1) rs (modify_cell (row, c) (header_cell r) ws) =
                     Inl ValueError_coordinate"
      using Cons.prems \<open>c \<le> 26\<close> by (intro Cons.IH) simp_all
    ultimately show ?thesis by simp
  qed
qed

lemma header_cells_lookup:
  assumes "header_cells row c rs ws = Inr ws'" and "1 \<le> c" and "c + length rs \<le> 27"
  shows "map_of ws' k =
           (if fst k = row \<and> c \<le> snd k \<and> snd k < c + length rs
            then Some (header_cell (rs ! (snd k - c)) (get_cell ws k)) else map_of ws k)"
  using assms
proof (induction rs arbitrary: c ws)
  case Nil
  then show ?case by auto
next
  case (Cons r rs)
  have c: "coordinate (col_letter c) row = Inr (row, c)"
    using Cons.prems by (simp add: coordinate_letter)
  let ?ws1 = "modify_cell (row, c) (header_cell r) ws"
  have run: "header_cells row (c + 1) rs ?ws1 = Inr ws'"
    using Cons.prems(1) c by simp
  have IH: "map_of ws' k =
           (if fst k = row \<and> c + 1 \<le> snd k \<and> snd k < c + 1 + length rs
            then Some (header_cell (rs ! (snd k - (c + 1))) (get_cell ?ws1 k)) else map_of ?ws1 k)"
    using Cons.prems by (intro Cons.IH [OF run]) simp_all
  show ?case
  proof (cases "k = (row, c)")
    case True
    then show ?thesis
      using IH by (simp add: map_of_modify_cell)
  next
    case False
    then have "snd k - c = Suc (snd k - (c + 1))" if "fst k = row" "c \<le> snd k"
      using that by (cases k) auto
    then show ?thesis
      using IH False by (cases k) (auto simp: map_of_modify_cell get_cell_modify_cell)
  qed
qed

subsection \<open>The data loops\<close>

lemma data_cells_lookup:
  assumes "data_cells key row c rs ws = Inr ws'" and "1 \<le> c" and "c + length rs \<le> 27"
  shows "(\<forall>k. \<not> (fst k = row \<and> c \<le> snd k \<and> snd k < c + length rs) \<longrightarrow> map_of ws' k = map_of ws k)
       \<and> (\<forall>j<length rs. data_cell key (row_value (rs ! j) key) (get_cell ws (row, c + j)) =
                           Inr (get_cell ws' (row, c + j))
                         \<and> map_of ws' (row, c + j) \<noteq> None)"
  using assms
proof (induction rs arbitrary: c ws)
  case Nil
  then show ?case by simp
next
  case (Cons r rs)
  have c: "coordinate (col_letter c) row = Inr (row, c)"
    using Cons.prems by (simp add: coordinate_letter)
  obtain cell where cell: "data_cell key (row_value r key) (get_cell ws (row, c)) = Inr cell"
    and run: "data_cells key row (c + 1) rs (((row, c), cell) # ws) = Inr ws'"
    using Cons.prems(1) c by (auto split: sum.splits)
  let ?ws1 = "((row, c), cell) # ws"
  have IH: "(\<forall>k. \<not> (fst k = row \<and> c + 1 \<le> snd k \<and> snd k < c + 1 + length rs) \<longrightarrow>
                 map_of ws' k = map_of ?ws1 k)
       \<and> (\<forall>j<length rs. data_cell key (row_value (rs ! j) key) (get_cell ?ws1 (row, c + 1 + j)) =
                           Inr (get_cell ws' (row, c + 1 + j))
                         \<and> map_of ws' (row, c + 1 + j) \<noteq> None)"
    using Cons.prems by (intro Cons.IH [OF run]) simp_all
  have frame: "\<forall>k. \<not> (fst k = row \<and> c \<le> snd k \<and> snd k < c + length (r # rs)) \<longrightarrow>
                 map_of ws' k = map_of ws k"
    using IH by auto
  have first: "map_of ws' (row, c) = Some cell"
    using IH by simp
  have content: "data_cell key (row_value ((r # rs) ! j) key) (get_cell ws (row, c + j)) =
                   Inr (get_cell ws' (row, c + j)) \<and> map_of ws' (row, c + j) \<noteq> None"
    if "j < length (r # rs)" for j
  proof (cases j)
    case 0
    then show ?thesis
      using cell first by (simp add: get_cell_def)
  next
    case (Suc j')
    then have "j' < length rs" using that by simp
    then have "data_cell key (row_value (rs ! j') key) (get_cell ?ws1 (row, c + 1 + j')) =
                 Inr (get_cell ws' (row, c + 1 + j')) \<and> map_of ws' (row, c + 1 + j') \<noteq> None"
      using IH by blast
    then show ?thesis
      using Suc by (simp add: get_cell_Cons)
  qed
  show ?case
    using frame content by blast
qed

lemma data_rows_lookup:
  assumes "data_rows rows results row0 ws = Inr (ws', r')" and "length results \<le> 25"
  shows "r' = row0 + length rows
       \<and> (\<forall>k. fst k < row0 \<or> row0 + length rows \<le> fst k \<longrightarrow> map_of ws' k = map_of ws k)
       \<and> (\<forall>i<length rows. \<forall>j<length results.
            data_cell (fst (rows ! i)) (row_value (results ! j) (fst (rows ! i)))
              (get_cell ws (row0 + i, 2 + j)) = Inr (get_cell ws' (row0 + i, 2 + j))
            \<and> map_of ws' (row0 + i, 2 + j) \<noteq> None)"
  using assms
proof (induction rows arbitrary: row0 ws)
  case Nil
  then show ?case by simp
next
  case (Cons kd rows)
  obtain key disp where kd: "kd = (key, disp)"
    by (cases kd)
  let ?ws1 = "modify_cell (row0, 1) (category_cell disp) ws"
  obtain ws2 where inner: "data_cells key row0 2 results ?ws1 = Inr ws2"
    and run: "data_rows rows results (row0 + 1) ws2 = Inr (ws', r')"
    using Cons.prems(1) kd by (auto split: sum.splits)
  have L: "(\<forall>k. \<not> (fst k = row0 \<and> 2 \<le> snd k \<and> snd k < 2 + length results) \<longrightarrow>
                map_of ws2 k = map_of ?ws1 k)
       \<and> (\<forall>j<length results. data_cell key (row_value (results ! j) key) (get_cell ?ws1 (row0, 2 + j)) =
                           Inr (get_cell ws2 (row0, 2 + j))
                         \<and> map_of ws2 (row0, 2 + j) \<noteq> None)"
    using Cons.prems(2) by (intro data_cells_lookup [OF inner]) simp_all
  have IH: "r' = row0 + 1 + length rows
       \<and> (\<forall>k. fst k < row0 + 1 \<or> row0 + 1 + length rows \<le> fst k \<longrightarrow> map_of ws' k = map_of ws2 k)
       \<and> (\<forall>i<length rows. \<forall>j<length results.
            data_cell (fst (rows ! i)) (row_value (results ! j) (fst (rows ! i)))
              (get_cell ws2 (row0 + 1 + i, 2 + j)) = Inr (get_cell ws' (row0 + 1 + i, 2 + j))
            \<and> map_of ws' (row0 + 1 + i, 2 + j) \<noteq> None)"
    using Cons.prems(2) by (intro Cons.IH [OF run])
  have other_rows: "map_of ws2 k = map_of ws k" if "fst k \<noteq> row0" for k
    using L that by (cases k) (auto simp: map_of_modify_cell)
  have frame: "\<forall>k. fst k < row0 \<or> row0 + length (kd # rows) \<le> fst k \<longrightarrow> map_of ws' k = map_of ws k"
  proof (intro allI impI)
    fix k :: "nat \<times> nat"
    assume k: "fst k < row0 \<or> row0 + length (kd # rows) \<le> fst k"
    then have "fst k < row0 + 1 \<or> row0 + 1 + length rows \<le> fst k"
      by auto
    then have "map_of ws' k = map_of ws2 k"
      using IH by blast
    moreover have "map_of ws2 k = map_of ws k"
      using k by (intro other_rows) auto
    ultimately show "map_of ws' k = map_of ws k" by simp
  qed
  have content: "data_cell (fst ((kd # rows) ! i)) (row_value (results ! j) (fst ((kd # rows) ! i)))
              (get_cell ws (row0 + i, 2 + j)) = Inr (get_cell ws' (row0 + i, 2 + j))
            \<and> map_of ws' (row0 + i, 2 + j) \<noteq> None"
    if "i < length (kd # rows)" and "j < length results" for i j
  proof (cases i)
    case 0
    have a: "map_of ws' (row0, 2 + j) = map_of ws2 (row0, 2 + j)"
      using IH by simp
    then have b: "get_cell ws' (row0, 2 + j) = get_cell ws2 (row0, 2 + j)"
      by (rule get_cell_cong)
    have c: "get_cell ?ws1 (row0, 2 + j) = get_cell ws (row0, 2 + j)"
      by (simp add: get_cell_modify_cell)
    have "data_cell key (row_value (results ! j) key) (get_cell ?ws1 (row0, 2 + j)) =
            Inr (get_cell ws2 (row0, 2 + j)) \<and> map_of ws2 (row0, 2 + j) \<noteq> None"
      using L that(2) by blast
    then show ?thesis
      using a b c 0 kd by simp
  next
    case (Suc i')
    then have i': "i' < length rows" using that by simp
    have a: "get_cell ws2 (row0 + 1 + i', 2 + j) = get_cell ws (row0 + 1 + i', 2 + j)"
      by (intro get_cell_cong other_rows) simp
    have "data_cell (fst (rows ! i')) (row_value (results ! j) (fst (rows ! i')))
              (get_cell ws2 (row0 + 1 + i', 2 + j)) = Inr (get_cell ws' (row0 + 1 + i', 2 + j))
            \<and> map_of ws' (row0 + 1 + i', 2 + j) \<noteq> None"
      using IH i' that(2) by blast
    then show ?thesis
      using a Suc by simp
  qed
  show ?case
    using IH frame content by simp
qed

subsection \<open>The summary loop\<close>

lemma collect_scores_valid:
  "collect_scores f rs = Inr ns \<Longrightarrow> ns = valid_scores f rs"
proof (induction rs arbitrary: ns)
  case Nil
  then show ?case by (simp add: valid_scores_def)
next
  case (Cons r rs)
  let ?v = "dict_get r f (PyStr ''-'')"
  let ?g = "\<lambda>r. case map_of r f of
              None \<Rightarrow> None
            | Some v \<Rightarrow> if digit_string (py_str v) then Some (int (decimal_value (py_str v))) else None"
  show ?case
  proof (cases "?v \<noteq> PyStr ''-'' \<and> py_isdigit (py_str ?v)")
    case True
    then obtain n ns' where n: "py_int ?v = Inr n" and rest: "collect_scores f rs = Inr ns'"
      and ns: "ns = n # ns'"
      using Cons.prems by (auto simp: Let_def split: sum.splits)
    have ds: "digit_string (py_str ?v)"
      using True n by (blast intro: py_int_isdigit_ok)
    then have "n = int (decimal_value (py_str ?v))"
      using n py_int_digit_string [of ?v] by simp
    moreover have "map_of r f = Some ?v"
      using True by (auto simp: dict_get_def split: option.splits)
    ultimately have "?g r = Some n"
      using ds by simp
    moreover have "ns' = valid_scores f rs"
      using rest by (rule Cons.IH)
    ultimately show ?thesis
      using ns by (simp add: valid_scores_def)
  next
    case False
    then have rest: "collect_scores f rs = Inr ns"
      using Cons.prems by (auto simp: Let_def)
    have "\<not> digit_string (py_str ?v)"
      using False digit_string_isdigit not_digit_string_dash(1) by (cases "?v = PyStr ''-''") auto
    then have "?g r = None"
      by (auto simp: dict_get_def not_digit_string_dash split: option.splits)
    moreover have "ns = valid_scores f rs"
      using rest by (rule Cons.IH)
    ultimately show ?thesis
      by (simp add: valid_scores_def)
  qed
qed



text \<open>
  The model of division and formatting on three means that are not decimals of one
  digit: 1/4 is a float and a tie, which goes to the even digit; the floats nearest to
  1/20 and 19/20 lie above and below the tie.
\<close>

lemma float_model_examples:
  "py_truediv 1 4 = Inr (1 / 4)"
  "py_format_1f (1 / 4) = ''0.2''"
  "py_truediv 1 20 = Inr (3602879701896397 / 72057594037927936)"
  "py_format_1f (3602879701896397 / 72057594037927936) = ''0.1''"
  "py_truediv 19 20 = Inr (4278419646001971 / 4503599627370496)"
  "py_format_1f (4278419646001971 / 4503599627370496) = ''0.9''"
  by code_simp+

lemma summary_lines_lookup:
  assumes "summary_lines results fs row ws = Inr (ws', r')"
  shows "r' = row + length (filter (\<lambda>f. valid_scores f results \<noteq> []) fs)
       \<and> (\<forall>k. fst k < row \<or> r' \<le> fst k \<longrightarrow> map_of ws' k = map_of ws k)
       \<and> (\<forall>m<length (filter (\<lambda>f. valid_scores f results \<noteq> []) fs).
            \<exists>avg. py_truediv (sum_list (valid_scores (filter (\<lambda>f. valid_scores f results \<noteq> []) fs ! m) results))
                     (int (length (valid_scores (filter (\<lambda>f. valid_scores f results \<noteq> []) fs ! m) results))) = Inr avg
                \<and> cell_value (get_cell ws' (row + m, 1)) =
                    PyStr (''Average '' @ filter (\<lambda>f. valid_scores f results \<noteq> []) fs ! m @ '':'')
                \<and> cell_value (get_cell ws' (row + m, 2)) = PyStr (py_format_1f avg))"
  using assms
proof (induction fs arbitrary: row ws)
  case Nil
  then show ?case by simp
next
  case (Cons f fs)
  let ?em = "filter (\<lambda>f. valid_scores f results \<noteq> []) fs"
  obtain scores where sc: "collect_scores f results = Inr scores"
    using Cons.prems by (auto split: sum.splits)
  then have scores: "scores = valid_scores f results"
    by (rule collect_scores_valid)
  show ?case
  proof (cases "scores = []")
    case True
    then have run: "summary_lines results fs row ws = Inr (ws', r')"
      using Cons.prems sc by simp
    show ?thesis
      using Cons.IH [OF run] True scores by simp
  next
    case False
    then obtain avg where avg: "py_truediv (sum_list scores) (int (length scores)) = Inr avg"
      and run: "summary_lines results fs (row + 1)
                  (modify_cell (row, 2) (\<lambda>c. c\<lparr>cell_value := PyStr (py_format_1f avg)\<rparr>)
                     (modify_cell (row, 1)
                        (\<lambda>c. c\<lparr>cell_value := PyStr (''Average '' @ f @ '':'')\<rparr>) ws)) = Inr (ws', r')"
      using Cons.prems sc by (auto split: sum.splits)
    let ?ws1 = "modify_cell (row, 2) (\<lambda>c. c\<lparr>cell_value := PyStr (py_format_1f avg)\<rparr>)
                  (modify_cell (row, 1) (\<lambda>c. c\<lparr>cell_value := PyStr (''Average '' @ f @ '':'')\<rparr>) ws)"
    note IH = Cons.IH [OF run]
    have em: "filter (\<lambda>f. valid_scores f results \<noteq> []) (f # fs) = f # ?em"
      using False scores by simp
    have r': "r' = row + length (f # ?em)"
      using IH by simp
    have frame1: "map_of ws' k = map_of ?ws1 k" if "fst k < row + 1 \<or> r' \<le> fst k" for k
      using IH that by blast
    have frame: "\<forall>k. fst k < row \<or> r' \<le> fst k \<longrightarrow> map_of ws' k = map_of ws k"
    proof (intro allI impI)
      fix k :: "nat \<times> nat"
      assume k: "fst k < row \<or> r' \<le> fst k"
      then have "fst k \<noteq> row" using r' by auto
      then have "map_of ?ws1 k = map_of ws k"
        by (cases k) (auto simp: map_of_modify_cell)
      moreover have "map_of ws' k = map_of ?ws1 k"
        using k by (intro frame1) auto
      ultimately show "map_of ws' k = map_of ws k" by simp
    qed
    have content: "\<exists>avg. py_truediv (sum_list (valid_scores ((f # ?em) ! m) results))
                     (int (length (valid_scores ((f # ?em) ! m) results))) = Inr avg
                \<and> cell_value (get_cell ws' (row + m, 1)) = PyStr (''Average '' @ (f # ?em) ! m @ '':'')
                \<and> cell_value (get_cell ws' (row + m, 2)) = PyStr (py_format_1f avg)"
      if "m < length (f # ?em)" for m
    proof (cases m)
      case 0
      have "get_cell ws' (row, 1) = get_cell ?ws1 (row, 1)"
        by (intro get_cell_cong frame1) simp
      moreover have "get_cell ws' (row, 2) = get_cell ?ws1 (row, 2)"
        by (intro get_cell_cong frame1) simp
      ultimately show ?thesis
        using avg scores 0 by (auto simp: get_cell_modify_cell)
    next
      case (Suc m')
      then have "m' < length ?em" using that by simp
      then have "\<exists>avg. py_truediv (sum_list (valid_scores (?em ! m') results))
                     (int (length (valid_scores (?em ! m') results))) = Inr avg
                \<and> cell_value (get_cell ws' (row + 1 + m', 1)) = PyStr (''Average '' @ ?em ! m' @ '':'')
                \<and> cell_value (get_cell ws' (row + 1 + m', 2)) = PyStr (py_format_1f avg)"
        using IH by blast
      then show ?thesis
        using Suc by simp
    qed
    show ?thesis
      unfolding em using r' frame content by blast
  qed
qed

subsection \<open>The stages of the styled report\<close>

lemma title_block_rows: "3 < fst k \<Longrightarrow> map_of (title_block now n) k = None"
  by (cases k) (auto simp: title_block_def map_of_modify_cell)

lemma create_excel_report_stages:
  assumes "create_excel_report now results table_rows = Inr rep" and "results \<noteq> []"
  obtains ws2 ws3 ws5 last_row where
    "length results \<le> 25"
    "header_cells 5 2 results (modify_cell (5, 1) category_header (title_block now (length results))) = Inr ws2"
    "data_rows table_rows results 6 ws2 = Inr (ws3, 6 + length table_rows)"
    "summary_lines results (score_fields table_rows) (length table_rows + 9)
       (summary_title (length table_rows + 8) ws3) = Inr (ws5, last_row)"
    "rep = \<lparr>sheet = ws5, column_widths = auto_adjust ws5\<rparr>"
proof -
  let ?ws1 = "modify_cell (5, 1) category_header (title_block now (length results))"
  obtain ws2 where h: "header_cells 5 2 results ?ws1 = Inr ws2"
    using assms by (auto simp: create_excel_report_def Let_def split: sum.splits)
  have len: "length results \<le> 25"
  proof (rule ccontr)
    assume "\<not> length results \<le> 25"
    then have "header_cells 5 2 results ?ws1 = Inl ValueError_coordinate"
      by (intro header_cells_fails) simp_all
    then show False using h by simp
  qed
  obtain ws3 cur where d: "data_rows table_rows results 6 ws2 = Inr (ws3, cur)"
    using assms h by (auto simp: create_excel_report_def Let_def split: sum.splits)
  have cur: "cur = 6 + length table_rows"
    using data_rows_lookup [OF d len] by simp
  obtain ws5 last_row where s: "summary_lines results (score_fields table_rows) (cur + 3)
       (summary_title (cur + 2) ws3) = Inr (ws5, last_row)"
    and rep: "rep = \<lparr>sheet = ws5, column_widths = auto_adjust ws5\<rparr>"
    using assms h d by (auto simp: create_excel_report_def Let_def split: sum.splits)
  have d': "data_rows table_rows results 6 ws2 = Inr (ws3, 6 + length table_rows)"
    using d cur by simp
  have s': "summary_lines results (score_fields table_rows) (length table_rows + 9)
              (summary_title (length table_rows + 8) ws3) = Inr (ws5, last_row)"
    using s cur by (simp add: add.commute)
  show thesis
    by (rule that [OF len h d' s' rep])
qed

text \<open>Below the header row nothing is written before the data rows.\<close>

lemma header_sheet_rows:
  assumes "header_cells 5 2 results (modify_cell (5, 1) category_header (title_block now n)) = Inr ws2"
    and "length results \<le> 25" and "5 < fst k"
  shows "map_of ws2 k = None"
proof -
  have "map_of ws2 k = map_of (modify_cell (5, 1) category_header (title_block now n)) k"
    using header_cells_lookup [OF assms(1), of k] assms(2,3) by simp
  also have "\<dots> = map_of (title_block now n) k"
    using assms(3) by (auto simp: map_of_modify_cell)
  also have "\<dots> = None"
    using assms(3) by (intro title_block_rows) simp
  finally show ?thesis .
qed

text \<open>The data cell of descriptor \<open>i\<close> and record \<open>j\<close> in the finished sheet.\<close>

lemma report_data_cell:
  assumes "create_excel_report now results table_rows = Inr rep"
    and "i < length table_rows" and "j < length results"
  shows "data_cell (fst (table_rows ! i)) (row_value (results ! j) (fst (table_rows ! i))) empty_cell =
           Inr (get_cell (sheet rep) (6 + i, 2 + j))"
proof -
  have ne: "results \<noteq> []" using assms(3) by auto
  obtain ws2 ws3 ws5 last_row where len: "length results \<le> 25"
    and h: "header_cells 5 2 results
              (modify_cell (5, 1) category_header (title_block now (length results))) = Inr ws2"
    and d: "data_rows table_rows results 6 ws2 = Inr (ws3, 6 + length table_rows)"
    and s: "summary_lines results (score_fields table_rows) (length table_rows + 9)
              (summary_title (length table_rows + 8) ws3) = Inr (ws5, last_row)"
    and rep: "rep = \<lparr>sheet = ws5, column_widths = auto_adjust ws5\<rparr>"
    using create_excel_report_stages [OF assms(1) ne] by metis
  have "map_of ws2 (6 + i, 2 + j) = None"
    by (rule header_sheet_rows [OF h len]) simp
  then have start: "get_cell ws2 (6 + i, 2 + j) = empty_cell"
    by (rule get_cell_unwritten)
  have cell: "data_cell (fst (table_rows ! i)) (row_value (results ! j) (fst (table_rows ! i)))
                (get_cell ws2 (6 + i, 2 + j)) = Inr (get_cell ws3 (6 + i, 2 + j))"
    using data_rows_lookup [OF d len] assms(2,3) by blast
  have "map_of ws5 (6 + i, 2 + j) = map_of (summary_title (length table_rows + 8) ws3) (6 + i, 2 + j)"
    using summary_lines_lookup [OF s] assms(2) by simp
  also have "\<dots> = map_of ws3 (6 + i, 2 + j)"
    by (simp add: summary_title_def map_of_modify_cell)
  finally have "get_cell ws5 (6 + i, 2 + j) = get_cell ws3 (6 + i, 2 + j)"
    by (rule get_cell_cong)
  then show ?thesis
    using cell start rep by simp
qed

lemma row_value_cases:
  "row_value r key =
     (case map_of r key of None \<Rightarrow> PyStr ''-'' | Some PyNone \<Rightarrow> PyStr ''-'' | Some v \<Rightarrow> v)"
  by (auto simp: row_value_def dict_get_def Let_def split: option.splits pyval.splits)

lemma data_cell_value: "data_cell key v c = Inr c' \<Longrightarrow> cell_value c' = PyStr (py_str v)"
  by (auto simp: data_cell_def Let_def split: if_splits sum.splits)



subsection \<open>Evaluating the model on concrete data\<close>

lemma bit_length_numeral:
  "bit_length (numeral k) = Suc (bit_length (numeral k div 2))"
  "bit_length 0 = 0" "bit_length 1 = 1" "bit_length (Suc 0) = 1"
  by (simp_all add: bit_length.simps [of "numeral k"] bit_length.simps [of 0]
      bit_length.simps [of 1] bit_length.simps [of "Suc 0"])

lemma digits_of_nat_numeral:
  "digits_of_nat (numeral k) =
     (if numeral k < (10::nat) then [digit_char (numeral k)]
      else digits_of_nat (numeral k div 10) @ [digit_char (numeral k mod 10)])"
  "digits_of_nat 0 = ''0''" "digits_of_nat 1 = ''1''" "digits_of_nat (Suc 0) = ''1''"
  by (simp_all add: digits_of_nat.simps [of "numeral k"] digits_of_nat.simps [of 0]
      digits_of_nat.simps [of 1] digits_of_nat.simps [of "Suc 0"] digit_char_def)

lemmas string_eval =
  py_startswith_def py_split_def py_isdigit_def isdigit_char_def ascii_digit_def
  digit_string_def decimal_value_def dict_get_def digits_of_nat_numeral digit_char_def

lemmas sheet_eval =
  create_excel_report_def title_block_def modify_cell_def get_cell_def category_header_def
  header_cell_def header_label_def coordinate_def col_letter_def data_cell_def row_value_def
  category_cell_def summary_title_def score_fields_def Let_def

lemmas float_eval =
  py_truediv_def nearest_binary64_def binary_exponent_def scale2_def round_half_even_def
  py_format_1f_def bit_length_numeral


subsection \<open>The header label\<close>

lemma split_from_nonempty: "split_from sep piece s \<noteq> []"
  by (induction s arbitrary: piece) auto

lemma hd_split_slash:
  "hd (split_from ''/'' piece s) = piece @ takeWhile (\<lambda>c. c \<noteq> CHR ''/'') s"
  by (induction s arbitrary: piece) (auto simp: py_startswith_def)

lemma takeWhile_hd_split_slashes:
  "takeWhile (\<lambda>c. c \<noteq> CHR ''/'') (hd (split_from ''//'' piece s)) =
   takeWhile (\<lambda>c. c \<noteq> CHR ''/'') (piece @ s)"
proof (induction s arbitrary: piece)
  case Nil
  then show ?case by simp
next
  case (Cons c cs)
  show ?case
  proof (cases "py_startswith (c # cs) ''//''")
    case True
    then have "c = CHR ''/''"
      by (cases cs) (auto simp: py_startswith_def)
    then have "takeWhile (\<lambda>c. c \<noteq> CHR ''/'') (piece @ c # cs) =
               takeWhile (\<lambda>c. c \<noteq> CHR ''/'') piece"
      by (simp add: takeWhile_tail)
    then show ?thesis
      using True by simp
  next
    case False
    then show ?thesis
      using Cons.IH [of "piece @ [c]"] by simp
  qed
qed

lemma py_replace_absent:
  "old \<noteq> [] \<Longrightarrow> \<not> py_contains old s \<Longrightarrow> py_replace old new s = s"
  by (induction s) auto

lemma py_contains_empty_text: "old \<noteq> [] \<Longrightarrow> \<not> py_contains old []"
  by simp

lemma py_replace_leading:
  assumes "p \<noteq> []" and "\<not> py_contains p (strip_prefix p s)"
  shows "py_replace p [] s = strip_prefix p s"
proof (cases "py_startswith s p")
  case True
  then obtain c cs where s: "s = c # cs"
    using assms(1) by (cases s) (auto simp: py_startswith_def)
  have "drop (length p - 1) cs = drop (length p) s"
    using s assms(1) by (cases p) simp_all
  moreover have "py_replace p [] (drop (length p) s) = drop (length p) s"
    using assms True by (intro py_replace_absent) (simp_all add: strip_prefix_def)
  ultimately have "py_replace p [] (c # cs) = drop (length p) s"
    using True s assms(1) by simp
  then show ?thesis
    using True s by (simp add: strip_prefix_def)
next
  case False
  then show ?thesis
    using assms by (simp add: strip_prefix_def py_replace_absent)
qed

text \<open>The host that the code cuts out is the host of the specification.\<close>

lemma header_host:
  assumes "py_split ''//'' u = scheme # py_split ''//'' rest"
  obtains b more more' where "py_split ''//'' u = scheme # b # more"
    and "py_split ''/'' b = takeWhile (\<lambda>c. c \<noteq> CHR ''/'') rest # more'"
proof -
  obtain b more where split: "py_split ''//'' rest = b # more"
    using split_from_nonempty [of "''//''" "[]" rest]
    by (cases "py_split ''//'' rest") (auto simp: py_split_def)
  have "takeWhile (\<lambda>c. c \<noteq> CHR ''/'') b = takeWhile (\<lambda>c. c \<noteq> CHR ''/'') rest"
    using takeWhile_hd_split_slashes [of "[]" rest] split by (simp add: py_split_def)
  then have hd: "hd (py_split ''/'' b) = takeWhile (\<lambda>c. c \<noteq> CHR ''/'') rest"
    using hd_split_slash [of "[]" b] by (simp add: py_split_def)
  obtain x more' where parts: "py_split ''/'' b = x # more'"
    using split_from_nonempty [of "''/''" "[]" b]
    by (cases "py_split ''/'' b") (auto simp: py_split_def)
  then have "x = takeWhile (\<lambda>c. c \<noteq> CHR ''/'') rest"
    using hd by simp
  then show thesis
    using that [of b more more'] assms split parts by simp
qed

lemma split_http: "py_split ''//'' (''http://'' @ rest) = ''http:'' # py_split ''//'' rest"
  by (simp add: py_split_def py_startswith_def)

lemma split_https: "py_split ''//'' (''https://'' @ rest) = ''https:'' # py_split ''//'' rest"
  by (simp add: py_split_def py_startswith_def)

text \<open>
  Where the host holds no \<^verbatim>\<open>www.\<close> other than a leading one, the label of the code is the
  label of the specification.
\<close>

lemma header_label_agrees:
  assumes "py_startswith u ''http://'' \<or> py_startswith u ''https://'' \<Longrightarrow>
             \<not> py_contains ''www.'' (spec_label u)"
  shows "header_label (PyStr u) = PyStr (spec_label u)"
proof (cases "py_startswith u ''http://''")
  case True
  have "take 7 u = ''http://''"
    using True by (simp add: py_startswith_def eval_nat_numeral)
  then have u: "u = ''http://'' @ drop 7 u"
    by (metis append_take_drop_id)
  let ?host = "takeWhile (\<lambda>c. c \<noteq> CHR ''/'') (drop 7 u)"
  have "py_split ''//'' u = ''http:'' # py_split ''//'' (drop 7 u)"
    using split_http [of "drop 7 u"] u by simp
  then obtain b more more' where "py_split ''//'' u = ''http:'' # b # more"
    and "py_split ''/'' b = ?host # more'"
    by (rule header_host)
  moreover have "py_replace ''www.'' [] ?host = strip_prefix ''www.'' ?host"
    using assms True by (intro py_replace_leading) (simp_all add: spec_label_def)
  ultimately show ?thesis
    using True by (simp add: header_label_def spec_label_def)
next
  case False
  show ?thesis
  proof (cases "py_startswith u ''https://''")
    case True
    have "take 8 u = ''https://''"
      using True by (simp add: py_startswith_def eval_nat_numeral)
    then have u: "u = ''https://'' @ drop 8 u"
      by (metis append_take_drop_id)
    let ?host = "takeWhile (\<lambda>c. c \<noteq> CHR ''/'') (drop 8 u)"
    have "py_split ''//'' u = ''https:'' # py_split ''//'' (drop 8 u)"
      using split_https [of "drop 8 u"] u by simp
    then obtain b more more' where "py_split ''//'' u = ''https:'' # b # more"
      and "py_split ''/'' b = ?host # more'"
      by (rule header_host)
    moreover have "py_replace ''www.'' [] ?host = strip_prefix ''www.'' ?host"
      using assms True False by (intro py_replace_leading) (simp_all add: spec_label_def)
    ultimately show ?thesis
      using True False by (simp add: header_label_def spec_label_def)
  next
    case no: False
    then show ?thesis
      using False by (simp add: header_label_def spec_label_def)
  qed
qed

text \<open>The header cell of record \<open>j\<close> in the finished sheet.\<close>

lemma report_header_cell:
  assumes "create_excel_report now results table_rows = Inr rep" and "j < length results"
  shows "cell_value (get_cell (sheet rep) (5, 2 + j)) =
           header_label (dict_get (results ! j) ''URL'' (PyStr ''Unknown''))"
proof -
  have ne: "results \<noteq> []" using assms(2) by auto
  obtain ws2 ws3 ws5 last_row where len: "length results \<le> 25"
    and h: "header_cells 5 2 results
              (modify_cell (5, 1) category_header (title_block now (length results))) = Inr ws2"
    and d: "data_rows table_rows results 6 ws2 = Inr (ws3, 6 + length table_rows)"
    and s: "summary_lines results (score_fields table_rows) (length table_rows + 9)
              (summary_title (length table_rows + 8) ws3) = Inr (ws5, last_row)"
    and rep: "rep = \<lparr>sheet = ws5, column_widths = auto_adjust ws5\<rparr>"
    using create_excel_report_stages [OF assms(1) ne] by metis
  have "map_of ws5 (5, 2 + j) = map_of (summary_title (length table_rows + 8) ws3) (5, 2 + j)"
    using summary_lines_lookup [OF s] by simp
  also have "\<dots> = map_of ws3 (5, 2 + j)"
    by (simp add: summary_title_def map_of_modify_cell)
  also have "\<dots> = map_of ws2 (5, 2 + j)"
    using data_rows_lookup [OF d len] by simp
  finally have "get_cell ws5 (5, 2 + j) = get_cell ws2 (5, 2 + j)"
    by (rule get_cell_cong)
  moreover have "map_of ws2 (5, 2 + j) =
      Some (header_cell (results ! j)
        (get_cell (modify_cell (5, 1) category_header (title_block now (length results))) (5, 2 + j)))"
    using header_cells_lookup [OF h, of "(5, 2 + j)"] len assms(2) by simp
  ultimately show ?thesis
    using rep by (simp add: get_cell_def header_cell_def)
qed

subsection \<open>The width of a column\<close>














subsection \<open>The columns in use\<close>











section \<open>Properties of the detailed report\<close>



text \<open>
  C7. Called with an empty list of records, the function hands no sheet to the writer:
  none of Summary, Detailed Data and Scores Comparison is written. Closing the writer
  then fails, so the call does not complete.
\<close>

theorem detailed_report_empty:
  "sheets_written [] = [] \<and> create_detailed_excel_report [] = Inl IndexError_no_sheet"
  by (simp add: sheets_written_def create_detailed_excel_report_def writer_close_def)



section \<open>Properties of the styled report\<close>



text \<open>
  C2. The header cell of a record is labelled by its URL without the scheme and without a
  leading \<^verbatim>\<open>www.\<close> of the host. The code removes every \<^verbatim>\<open>www.\<close> in the host, not only a
  leading one: for the URL below it writes \<^verbatim>\<open>myexample.com\<close>, where the label by the
  specification is \<^verbatim>\<open>mywww.example.com\<close>. The two examples of the specification come out
  as it says, and so does every URL whose host holds no further \<^verbatim>\<open>www.\<close>
  (\<open>header_label_agrees\<close>, \<open>report_header_cell\<close>).
\<close>

theorem header_label_removes_inner_www:
  "\<not> isl (create_excel_report ''2025-01-01 10:00:00''
            [[(''URL'', PyStr ''https://mywww.example.com'')]] [])
   \<and> cell_value (get_cell (sheet (projr (create_excel_report ''2025-01-01 10:00:00''
        [[(''URL'', PyStr ''https://mywww.example.com'')]] []))) (5, 2)) = PyStr ''myexample.com''
   \<and> spec_label ''https://mywww.example.com'' = ''mywww.example.com''
   \<and> header_label (PyStr ''https://www.Example.com/path'') = PyStr ''Example.com''
   \<and> spec_label ''https://www.Example.com/path'' = ''Example.com''
   \<and> header_label (PyStr ''not-a-url'') = PyStr ''not-a-url''
   \<and> spec_label ''not-a-url'' = ''not-a-url''"
  by (simp add: string_eval sheet_eval float_eval spec_label_def strip_prefix_def)





text \<open>
  C6. Called with an empty list of records, the function saves a sheet that holds the
  title block of rows 1 to 3 and the message "No results to display" in A5, and nothing
  else: no header row, no data rows, no summary block, no column widths.
\<close>

theorem empty_results_placeholder:
  "\<not> isl (create_excel_report now [] table_rows)
   \<and> map_of (sheet (projr (create_excel_report now [] table_rows))) =
       [(1, 1) \<mapsto> empty_cell\<lparr>cell_value := PyStr ''RateMySite Analysis Report'',
                              cell_font := Font True None (Some 16) None\<rparr>,
        (2, 1) \<mapsto> empty_cell\<lparr>cell_value := PyStr (''Generated on: '' @ now)\<rparr>,
        (3, 1) \<mapsto> empty_cell\<lparr>cell_value := PyStr ''Total sites analyzed: 0''\<rparr>,
        (5, 1) \<mapsto> empty_cell\<lparr>cell_value := PyStr ''No results to display''\<rparr>]
   \<and> column_widths (projr (create_excel_report now [] table_rows)) = []"
  by (auto simp: create_excel_report_def title_block_def modify_cell_def get_cell_def
      digits_of_nat_numeral fun_eq_iff)

text \<open>
  C8 (as amended). In the styled report, for every record and every row descriptor, the
  data cell holds the text of the record's value for the field, and the placeholder -
  when the field is missing or \<^verbatim>\<open>None\<close>. An empty string is written as it is.
\<close>

theorem data_cell_text:
  assumes "create_excel_report now results table_rows = Inr rep"
    and "i < length table_rows" and "j < length results"
  shows "cell_value (get_cell (sheet rep) (6 + i, 2 + j)) =
           PyStr (case map_of (results ! j) (fst (table_rows ! i)) of
                    None \<Rightarrow> ''-'' | Some PyNone \<Rightarrow> ''-'' | Some v \<Rightarrow> py_str v)"
proof -
  have "cell_value (get_cell (sheet rep) (6 + i, 2 + j)) =
          PyStr (py_str (row_value (results ! j) (fst (table_rows ! i))))"
    using report_data_cell [OF assms] by (rule data_cell_value)
  then show ?thesis
    by (simp add: row_value_cases split: option.splits pyval.splits)
qed

theorem data_cell_text_witness:
  "cell_value (get_cell (sheet (projr (create_excel_report ''2025-01-01 10:00:00''
      [[(''URL'', PyStr ''https://a.com''), (''Overall Score'', PyNone)]]
      [(''Company'', ''Company''), (''Overall Score'', ''Overall Score'')]))) (7, 2)) = PyStr ''-''"
proof -
  let ?run = "create_excel_report ''2025-01-01 10:00:00''
      [[(''URL'', PyStr ''https://a.com''), (''Overall Score'', PyNone)]]
      [(''Company'', ''Company''), (''Overall Score'', ''Overall Score'')]"
  have "\<not> isl ?run"
    by (simp add: string_eval sheet_eval float_eval)
  then have run: "?run = Inr (projr ?run)"
    by (cases ?run) simp_all
  show ?thesis
    using data_cell_text [OF run, of 1 0] by simp
qed

text \<open>
  The claim C8 as stated fails on an empty string: the cell then holds the empty string,
  not the placeholder.
\<close>

theorem empty_string_is_not_replaced:
  "\<not> isl (create_excel_report ''2025-01-01 10:00:00''
      [[(''URL'', PyStr ''https://a.com''), (''Company'', PyStr '''')]] [(''Company'', ''Company'')])
   \<and> cell_value (get_cell (sheet (projr (create_excel_report ''2025-01-01 10:00:00''
      [[(''URL'', PyStr ''https://a.com''), (''Company'', PyStr '''')]] [(''Company'', ''Company'')])))
        (6, 2)) = PyStr ''''
   \<and> cell_value (get_cell (sheet (projr (create_excel_report ''2025-01-01 10:00:00''
      [[(''URL'', PyStr ''https://a.com''), (''Company'', PyStr '''')]] [(''Company'', ''Company'')])))
        (6, 2)) \<noteq> PyStr ''-''"
  by (simp add: string_eval sheet_eval float_eval)

text \<open>
  C10. The column letter of a record is the single character \<^verbatim>\<open>chr(ord('A') + index)\<close>. For
  the first 25 records it is one of B to Z and the coordinate is valid; for the 26th it
  is the character after Z, which is no letter: the cell assignment raises, and so does
  every call with more than 25 records. No report is written then.
\<close>

theorem more_than_25_records_fail:
  assumes "25 < length results"
  shows "create_excel_report now results table_rows = Inl ValueError_coordinate
       \<and> (\<forall>j<25. 66 \<le> col_letter (2 + j) \<and> col_letter (2 + j) \<le> 90
                 \<and> coordinate (col_letter (2 + j)) row = Inr (row, 2 + j))
       \<and> col_letter (2 + 25) = 91
       \<and> coordinate (col_letter (2 + 25)) row = Inl ValueError_coordinate"
proof -
  have ne: "results \<noteq> []"
    using assms by auto
  have "header_cells 5 2 results
          (modify_cell (5, 1) category_header (title_block now (length results))) =
        Inl ValueError_coordinate"
    using assms by (intro header_cells_fails) simp_all
  then have "create_excel_report now results table_rows = Inl ValueError_coordinate"
    using ne by (simp add: create_excel_report_def)
  moreover have "\<forall>j<25. 66 \<le> col_letter (2 + j) \<and> col_letter (2 + j) \<le> 90
                 \<and> coordinate (col_letter (2 + j)) row = Inr (row, 2 + j)"
    by (simp add: coordinate_letter) (simp add: col_letter_def)
  ultimately show ?thesis
    by (simp add: coordinate_def col_letter_def)
qed

theorem more_than_25_records_fail_witness:
  "create_excel_report ''2025-01-01 10:00:00'' (replicate 26 [(''URL'', PyStr ''https://a.com'')]) [] =
     Inl ValueError_coordinate
   \<and> coordinate (col_letter (2 + 24)) 5 = Inr (5, 26)"
  using more_than_25_records_fail
    [of "replicate 26 [(''URL'', PyStr ''https://a.com'')]" "''2025-01-01 10:00:00''" "[]" 5]
  by (simp add: coordinate_def col_letter_def)

end
